theory Spec2Isabelle
  imports Complex_Main "HOL-Library.Char_ord"
begin

section \<open>Text cleaner\<close>

text \<open>
  Source: \<^verbatim>\<open>recommend_similar_tasks/recommender_sys_for_input.py\<close>.

  Text is modelled as \<^typ>\<open>string\<close>, a list of 8-bit characters. The cleaner keeps ASCII
  letters and digits only; every other character, whatever its code, becomes a space
  before tokenisation.
\<close>

text \<open>A table cell holds a Python \<^verbatim>\<open>int\<close> or a Python \<^verbatim>\<open>str\<close>: the synthetic query row
  \<^verbatim>\<open>[999, title, '0', 'You want to?']\<close> mixes both.\<close>

datatype cell = IntCell int | StrCell string

definition digit_char :: "nat \<Rightarrow> char" where
  "digit_char d = char_of (48 + d)"

fun digit_string :: "nat \<Rightarrow> string" where
  "digit_string n =
     (if n < 10 then [digit_char n] else digit_string (n div 10) @ [digit_char (n mod 10)])"

declare digit_string.simps [simp del]

text \<open>Python \<^verbatim>\<open>str(x)\<close>: a string is itself, an integer is its decimal numeral.\<close>

fun str :: "cell \<Rightarrow> string" where
  "str (StrCell s) = s"
| "str (IntCell i) = (if i < 0 then CHR ''-'' # digit_string (nat (- i)) else digit_string (nat i))"

definition is_upper :: "char \<Rightarrow> bool" where
  "is_upper c = (CHR ''A'' \<le> c \<and> c \<le> CHR ''Z'')"

definition is_lower :: "char \<Rightarrow> bool" where
  "is_lower c = (CHR ''a'' \<le> c \<and> c \<le> CHR ''z'')"

definition is_digit :: "char \<Rightarrow> bool" where
  "is_digit c = (CHR ''0'' \<le> c \<and> c \<le> CHR ''9'')"

text \<open>\<^verbatim>\<open>str.lower()\<close>, line 24: \<^verbatim>\<open>A\<close>..\<^verbatim>\<open>Z\<close> move to \<^verbatim>\<open>a\<close>..\<^verbatim>\<open>z\<close>, 32 code points up.\<close>

definition lower_char :: "char \<Rightarrow> char" where
  "lower_char c = (if is_upper c then char_of (of_char c + (32::nat)) else c)"

definition lower :: "string \<Rightarrow> string" where
  "lower s = map lower_char s"

text \<open>\<^verbatim>\<open>re.sub('[^A-Za-z0-9]', ' ', text)\<close>, line 26.\<close>

definition re_sub_non_alnum :: "string \<Rightarrow> string" where
  "re_sub_non_alnum s =
     map (\<lambda>c. if is_upper c \<or> is_lower c \<or> is_digit c then c else CHR '' '') s"

text \<open>Python's whitespace among the ASCII characters: tab, line feed, vertical tab, form
  feed, carriage return, the four separators \<^verbatim>\<open>0x1c\<close>..\<^verbatim>\<open>0x1f\<close>, and the space.\<close>

definition is_space :: "char \<Rightarrow> bool" where
  "is_space c = (let n = (of_char c :: nat) in (9 \<le> n \<and> n \<le> 13) \<or> (28 \<le> n \<and> n \<le> 32))"

text \<open>\<^verbatim>\<open>str.split()\<close> with no argument: the maximal runs of non-whitespace characters.
  The first argument is the word read so far.\<close>

fun split_from :: "string \<Rightarrow> string \<Rightarrow> string list" where
  "split_from w [] = (if w = [] then [] else [w])"
| "split_from w (c # cs) =
     (if is_space c then (if w = [] then split_from [] cs else w # split_from [] cs)
      else split_from (w @ [c]) cs)"

definition str_split :: "string \<Rightarrow> string list" where
  "str_split s = split_from [] s"

text \<open>\<^verbatim>\<open>" ".join(tokens)\<close>, line 31.\<close>

fun join :: "string list \<Rightarrow> string" where
  "join [] = []"
| "join [t] = t"
| "join (t # u # ts) = t @ CHR '' '' # join (u # ts)"

text \<open>
  \<^verbatim>\<open>nltk.word_tokenize\<close>, line 27, is a library function outside the repository. The text it
  receives here consists of lower-case letters, digits and spaces only, so none of its
  punctuation, quote or sentence rules applies. What remains is the splitting on
  whitespace and the Treebank contraction rules, which cut six words in two after their
  third letter (\<^verbatim>\<open>cannot\<close> gives \<^verbatim>\<open>can\<close>, \<^verbatim>\<open>not\<close>).
\<close>

definition contractions :: "string list" where
  "contractions = [''cannot'', ''gimme'', ''gonna'', ''gotta'', ''lemme'', ''wanna'']"

definition contraction :: "string \<Rightarrow> string list" where
  "contraction w = (if w \<in> set contractions then [take 3 w, drop 3 w] else [w])"

definition word_tokenize :: "string \<Rightarrow> string list" where
  "word_tokenize s = concat (map contraction (str_split s))"

text \<open>
  \<^verbatim>\<open>cleaner\<close>, lines 12 to 31. The stop-word list \<^verbatim>\<open>stopwords.words('english')\<close> is a table of
  the NLTK corpus, not of the repository: it is the parameter \<open>sw\<close>.
\<close>

definition cleaner :: "string list \<Rightarrow> cell \<Rightarrow> string" where
  "cleaner sw text =
     (let text1 = lower (str text);
          text2 = re_sub_non_alnum text1;
          text3 = word_tokenize text2;
          text4 = filter (\<lambda>token. token \<notin> set sw) text3
      in join text4)"


text \<open>The characters and words left by the cleaner, used to state what its output looks like.\<close>

definition plain :: "string \<Rightarrow> bool" where
  "plain s = (\<forall>c \<in> set s. is_lower c \<or> is_digit c \<or> c = CHR '' '')"

definition plain_token :: "string \<Rightarrow> bool" where
  "plain_token t = (t \<noteq> [] \<and> (\<forall>c \<in> set t. is_lower c \<or> is_digit c))"

definition pieces :: "string list" where
  "pieces = concat (map (\<lambda>w. [take 3 w, drop 3 w]) contractions)"


section \<open>Tables, errors and the store\<close>

text \<open>
  A pandas \<^verbatim>\<open>DataFrame\<close>: the column labels, the row labels (the index) and the rows, each row
  holding one cell per column. Rows are addressed by position throughout the source
  (\<^verbatim>\<open>tolist\<close>, \<^verbatim>\<open>iloc\<close>, and the index is reset before the only lookup by label).
\<close>

record dataframe =
  columns :: "string list"
  index :: "cell list"
  rows :: "cell list list"

text \<open>
  One constructor for each \<^verbatim>\<open>raise\<close> of the source (lines 91, 138 and 150) and for each
  exception of the libraries that the source lets through.
\<close>

datatype error =
    ValueError_top_n
  | IOError_too_short
  | ValueError_same_task
  | KeyError
  | IndexError
  | ValueError_shape
  | ValueError_ambiguous
  | VectorizerError

text \<open>
  Frames are mutable objects, and the source both updates them in place and creates new
  ones. The store is the list of all frames allocated so far; a reference is a position
  in it.
\<close>

type_synonym ref = nat
type_synonym heap = "dataframe list"

definition alloc :: "heap \<Rightarrow> dataframe \<Rightarrow> ref \<times> heap" where
  "alloc h df = (length h, h @ [df])"

fun position :: "'a \<Rightarrow> 'a list \<Rightarrow> nat option" where
  "position x [] = None"
| "position x (y # ys) = (if x = y then Some 0 else map_option Suc (position x ys))"

text \<open>\<^verbatim>\<open>df[c]\<close>: the values of one column, top to bottom; \<^verbatim>\<open>KeyError\<close> for an unknown label.\<close>

definition getitem :: "dataframe \<Rightarrow> string \<Rightarrow> error + cell list" where
  "getitem df c =
     (case position c (columns df) of
        None \<Rightarrow> Inl KeyError
      | Some k \<Rightarrow> Inr (map (\<lambda>row. row ! k) (rows df)))"

text \<open>\<^verbatim>\<open>df[c] = values\<close>: overwrites the column if the label exists, adds it at the right
  otherwise. The values come from a column of the same frame, one for each row.\<close>

definition setitem :: "dataframe \<Rightarrow> string \<Rightarrow> cell list \<Rightarrow> dataframe" where
  "setitem df c vals =
     (case position c (columns df) of
        None \<Rightarrow> df\<lparr>columns := columns df @ [c],
                  rows := map2 (\<lambda>row v. row @ [v]) (rows df) vals\<rparr>
      | Some k \<Rightarrow> df\<lparr>rows := map2 (\<lambda>row v. row[k := v]) (rows df) vals\<rparr>)"

text \<open>\<^verbatim>\<open>df[[c1, c2, c3]]\<close>: a new frame with the listed columns.\<close>

definition getitems :: "dataframe \<Rightarrow> string list \<Rightarrow> error + dataframe" where
  "getitems df cs =
     (case those (map (\<lambda>c. position c (columns df)) cs) of
        None \<Rightarrow> Inl KeyError
      | Some ks \<Rightarrow> Inr (df\<lparr>columns := cs, rows := map (\<lambda>row. map (\<lambda>k. row ! k) ks) (rows df)\<rparr>))"

text \<open>\<^verbatim>\<open>df.iloc[positions]\<close>: the rows at the given positions, in the given order.\<close>

definition iloc :: "dataframe \<Rightarrow> nat list \<Rightarrow> error + dataframe" where
  "iloc df ns =
     (if \<forall>n \<in> set ns. n < length (rows df)
      then Inr (df\<lparr>index := map (\<lambda>n. index df ! n) ns, rows := map (\<lambda>n. rows df ! n) ns\<rparr>)
      else Inl IndexError)"

definition range_index :: "nat \<Rightarrow> cell list" where
  "range_index n = map (\<lambda>i. IntCell (int i)) [0..<n]"

text \<open>\<^verbatim>\<open>df.reset_index(inplace=True, drop=True)\<close>: the labels become 0, 1, 2, ...\<close>

definition reset_index :: "dataframe \<Rightarrow> dataframe" where
  "reset_index df = df\<lparr>index := range_index (length (rows df))\<rparr>"

text \<open>\<^verbatim>\<open>pd.DataFrame([values], columns=cols, index=[0])\<close>: a frame of one row; pandas refuses a
  column list whose length differs from the number of values.\<close>

definition DataFrame :: "cell list \<Rightarrow> string list \<Rightarrow> error + dataframe" where
  "DataFrame vals cols =
     (if length cols = length vals
      then Inr \<lparr>columns = cols, index = [IntCell 0], rows = [vals]\<rparr>
      else Inl ValueError_shape)"

text \<open>\<^verbatim>\<open>df.append(other, ignore_index=True)\<close>, for a frame \<open>other\<close> with the column list of
  \<open>df\<close>: a new frame, the rows of \<open>other\<close> below those of \<open>df\<close>, labelled afresh. Neither
  argument is modified.\<close>

definition df_append :: "dataframe \<Rightarrow> dataframe \<Rightarrow> dataframe" where
  "df_append df other =
     \<lparr>columns = columns df,
      index = range_index (length (rows df) + length (rows other)),
      rows = rows df @ rows other\<rparr>"


section \<open>Similarity builder\<close>

text \<open>
  Similarity scores are modelled as exact real numbers.
  \<^verbatim>\<open>linear_kernel(X, Y)\<close> is the matrix of the dot products of the rows of \<open>X\<close> with the rows
  of \<open>Y\<close>.
\<close>

type_synonym matrix = "real list list"

definition dot :: "real list \<Rightarrow> real list \<Rightarrow> real" where
  "dot x y = sum_list (map2 (\<lambda>a b. a * b) x y)"

definition linear_kernel :: "matrix \<Rightarrow> matrix \<Rightarrow> matrix" where
  "linear_kernel X Y = map (\<lambda>x. map (\<lambda>y. dot x y) Y) X"

text \<open>
  \<^verbatim>\<open>dataframe_column_to_cosine_sim\<close>, lines 34 to 68. The vectorizer
  \<^verbatim>\<open>TfidfVectorizer(stop_words='english').fit_transform\<close> belongs to scikit-learn: it is the
  parameter \<open>fit_transform\<close>, which gives one row of weights for each document, or
  \<open>None\<close> when the library raises (it does for a corpus without any term). The timing line
  printed on the way is not modelled.
\<close>

type_synonym vectorizer = "cell list \<Rightarrow> matrix option"

definition dataframe_column_to_cosine_sim ::
  "vectorizer \<Rightarrow> dataframe \<Rightarrow> string \<Rightarrow> error + (cell list \<times> matrix \<times> matrix)" where
  "dataframe_column_to_cosine_sim fit_transform df column =
     (case getitem df column of
        Inl e \<Rightarrow> Inl e
      | Inr corpus \<Rightarrow>
          (case fit_transform corpus of
             None \<Rightarrow> Inl VectorizerError
           | Some tfidf_matrix \<Rightarrow>
               Inr (corpus, tfidf_matrix, linear_kernel tfidf_matrix tfidf_matrix)))"


section \<open>Recommender\<close>

text \<open>\<^verbatim>\<open>indices = pd.Series(df.index, index=df[column]); indices[title]\<close>, lines 97 and 100,
  on the freshly reset index: the positions of the rows whose value is the key.\<close>

definition locate :: "cell \<Rightarrow> cell list \<Rightarrow> nat list" where
  "locate key vals = filter (\<lambda>i. vals ! i = key) [0..<length vals]"

text \<open>\<^verbatim>\<open>xs[lo:hi]\<close> for bounds that are not negative.\<close>

definition slice :: "nat \<Rightarrow> nat \<Rightarrow> 'a list \<Rightarrow> 'a list" where
  "slice lo hi xs = take (hi - lo) (drop lo xs)"

text \<open>
  Lines 103 to 110. Python's \<^verbatim>\<open>sorted\<close> is stable, also with \<^verbatim>\<open>reverse=True\<close>: entries with
  equal scores keep their order. That is the stable ascending sort on the negated score.
\<close>

definition item_indices :: "real list \<Rightarrow> int \<Rightarrow> nat list" where
  "item_indices scores top_n =
     (let sim_scores = enumerate 0 scores;
          sim_scores = sort_key (\<lambda>x. - snd x) sim_scores;
          sim_scores = slice 1 (nat (top_n + 1)) sim_scores
      in map (\<lambda>i. fst i) sim_scores)"

text \<open>
  The same lines when the title is found in several rows. Then \<^verbatim>\<open>indices[title]\<close> is a series
  of positions, \<^verbatim>\<open>cosine_sim[idx]\<close> is the block of their score rows, and \<^verbatim>\<open>enumerate\<close> numbers
  the rows of the block. \<^verbatim>\<open>sorted\<close> compares whole rows with \<^verbatim>\<open><\<close> and takes the truth value of
  the result: for rows of one entry that is the comparison of the entries, for rows without
  entries it is false, so that all rows are equal, and for longer rows numpy raises a
  \<^verbatim>\<open>ValueError\<close> of its own.
\<close>

definition row_key :: "real list \<Rightarrow> real" where
  "row_key row = (case row of [] \<Rightarrow> 0 | v # _ \<Rightarrow> v)"

definition block_indices :: "real list list \<Rightarrow> int \<Rightarrow> nat list" where
  "block_indices block top_n =
     (let sim_scores = enumerate 0 block;
          sim_scores = sort_key (\<lambda>x. - row_key (snd x)) sim_scores;
          sim_scores = slice 1 (nat (top_n + 1)) sim_scores
      in map (\<lambda>i. fst i) sim_scores)"

text \<open>
  \<^verbatim>\<open>get_recommendations\<close>, lines 71 to 113, on the frame at reference \<open>df\<close> of the store.
  \<^verbatim>\<open>cosine_sim[idx]\<close> raises \<^verbatim>\<open>IndexError\<close> for a position beyond the matrix, be it the one
  position of the title or one of several.
\<close>

definition get_recommendations ::
  "string \<Rightarrow> matrix \<Rightarrow> ref \<Rightarrow> string \<Rightarrow> int \<Rightarrow> heap \<Rightarrow> (error + dataframe) \<times> heap" where
  "get_recommendations title cosine_sim df column top_n h =
     (if \<not> (top_n < 20 \<and> top_n > 1) then (Inl ValueError_top_n, h)
      else
        let h1 = h[df := reset_index (h ! df)] in
        case getitem (h1 ! df) column of
          Inl e \<Rightarrow> (Inl e, h1)
        | Inr vals \<Rightarrow>
            (case locate (StrCell title) vals of
               [] \<Rightarrow> (Inl KeyError, h1)
             | [idx] \<Rightarrow>
                 if length cosine_sim \<le> idx then (Inl IndexError, h1)
                 else
                   (case getitems (h1 ! df) [''ID'', column, ''Deadline''] of
                      Inl e \<Rightarrow> (Inl e, h1)
                    | Inr projection \<Rightarrow>
                        (iloc projection (item_indices (cosine_sim ! idx) top_n), h1))
             | idxs \<Rightarrow>
                 if \<exists>i \<in> set idxs. length cosine_sim \<le> i then (Inl IndexError, h1)
                 else
                   let block = map (\<lambda>i. cosine_sim ! i) idxs in
                   if \<exists>row \<in> set block. 2 \<le> length row then (Inl ValueError_ambiguous, h1)
                   else
                     (case getitems (h1 ! df) [''ID'', column, ''Deadline''] of
                        Inl e \<Rightarrow> (Inl e, h1)
                      | Inr projection \<Rightarrow>
                          (iloc projection (block_indices block top_n), h1))))"


section \<open>Frame preparer\<close>

text \<open>Line 141: the synthetic query row, four values laid against the column list of the
  table.\<close>

definition query_row :: "string \<Rightarrow> cell list" where
  "query_row title = [IntCell 999, StrCell title, StrCell ''0'', StrCell ''You want to?'']"

text \<open>
  Lines 146 to 155, which run on the working frame \<open>df\<close>: the caller's frame, or the
  extended one when a query row was inserted.
\<close>

definition clean_and_recommend ::
  "string list \<Rightarrow> vectorizer \<Rightarrow> string \<Rightarrow> ref \<Rightarrow> string \<Rightarrow> string \<Rightarrow> int \<Rightarrow> heap
     \<Rightarrow> (error + dataframe) \<times> heap" where
  "clean_and_recommend sw fit_transform cleaned_title df title column top_n h =
     (case getitem (h ! df) column of
        Inl e \<Rightarrow> (Inl e, h)
      | Inr vals \<Rightarrow>
          let cleaned_column = map (\<lambda>x. StrCell (cleaner sw (StrCell (str x)))) vals;
              h1 = h[df := setitem (h ! df) ''cleaned_column'' cleaned_column]
          in
          if cleaned_title \<noteq> [] \<and> StrCell cleaned_title \<in> set (butlast cleaned_column)
          then (Inl ValueError_same_task, h1)
          else
            (case dataframe_column_to_cosine_sim fit_transform (h1 ! df) ''cleaned_column'' of
               Inl e \<Rightarrow> (Inl e, h1)
             | Inr (corpus, tfidf_matrix, cosine_sim) \<Rightarrow>
                 get_recommendations title cosine_sim df column top_n h1))"

text \<open>
  Lines 134 to 144, the insertion of the query: the cleaned title, the reference of the
  extended frame and the new store. \<^verbatim>\<open>df.append\<close> returns a new frame, so the extended
  frame is allocated and the frame at \<open>df\<close> stays as it is.
\<close>

definition insert_query_row ::
  "string list \<Rightarrow> ref \<Rightarrow> string \<Rightarrow> heap \<Rightarrow> error + (string \<times> ref \<times> heap)" where
  "insert_query_row sw df title h =
     (let cleaned_title = cleaner sw (StrCell title) in
      if length (str_split cleaned_title) < 2 then Inl IOError_too_short
      else
        (case DataFrame (query_row title) (columns (h ! df)) of
           Inl e \<Rightarrow> Inl e
         | Inr new_row \<Rightarrow>
             let (df1, h1) = alloc h (df_append (h ! df) new_row)
             in Inr (cleaned_title, df1, h1)))"

text \<open>
  \<^verbatim>\<open>initialize_frame_for_recommender\<close>, lines 115 to 155. After an insertion the local name
  \<^verbatim>\<open>df\<close> is bound to the extended frame.
\<close>

definition initialize_frame_for_recommender ::
  "string list \<Rightarrow> vectorizer \<Rightarrow> ref \<Rightarrow> string \<Rightarrow> string \<Rightarrow> int \<Rightarrow> bool \<Rightarrow> heap
     \<Rightarrow> (error + dataframe) \<times> heap" where
  "initialize_frame_for_recommender sw fit_transform df title column top_n new_string h =
     (if new_string then
        (case insert_query_row sw df title h of
           Inl e \<Rightarrow> (Inl e, h)
         | Inr (cleaned_title, df1, h1) \<Rightarrow>
             clean_and_recommend sw fit_transform cleaned_title df1 title column top_n h1)
      else clean_and_recommend sw fit_transform [] df title column top_n h)"


section \<open>Example data\<close>

text \<open>A small stop-word list, and a table of three tasks with the four columns that the
  insertion of a query needs.\<close>

definition stop_words :: "string list" where
  "stop_words = [''the'', ''a'', ''to'', ''you'', ''me'']"

definition tasks :: dataframe where
  "tasks =
     \<lparr>columns = [''ID'', ''Title'', ''Deadline'', ''Note''],
      index = [IntCell 0, IntCell 1, IntCell 2],
      rows = [[IntCell 1, StrCell ''Audit'', StrCell ''2024-01-01'', StrCell ''none''],
              [IntCell 2, StrCell ''Backup'', StrCell ''2024-01-02'', StrCell ''none''],
              [IntCell 3, StrCell ''Cleanup'', StrCell ''2024-01-03'', StrCell ''none'']]\<rparr>"

text \<open>A table with two titles that differ in case only, and the similarity matrix of its
  cleaned titles: the first two documents are the same, the third shares no term with
  them.\<close>

definition twins :: dataframe where
  "twins =
     \<lparr>columns = [''ID'', ''Title'', ''Deadline''],
      index = [IntCell 0, IntCell 1, IntCell 2],
      rows = [[IntCell 1, StrCell ''Fix server'', StrCell ''2024-01-01''],
              [IntCell 2, StrCell ''fix server'', StrCell ''2024-01-02''],
              [IntCell 3, StrCell ''Plan party'', StrCell ''2024-01-03'']]\<rparr>"

definition twins_sim :: matrix where
  "twins_sim = [[1, 1, 0], [1, 1, 0], [0, 0, 1]]"

text \<open>The weights of a corpus in which every document has one term of its own, the terms in
  alphabetical order: the unit vectors.\<close>

definition unit_rows :: vectorizer where
  "unit_rows corpus =
     (let n = length corpus
      in Some (map (\<lambda>i. map (\<lambda>j. if i = j then 1 else 0) [0..<n]) [0..<n]))"

text \<open>A table of four columns whose titles have two words each.\<close>

definition jobs :: dataframe where
  "jobs =
     \<lparr>columns = [''ID'', ''Title'', ''Deadline'', ''Note''],
      index = [IntCell 0, IntCell 1],
      rows = [[IntCell 1, StrCell ''Fix server'', StrCell ''2024-01-01'', StrCell ''none''],
              [IntCell 2, StrCell ''Plan party'', StrCell ''2024-01-02'', StrCell ''none'']]\<rparr>"

text \<open>A vectorizer that returns a weight matrix with rational entries for three documents,
  the last of which has no term at all.\<close>

definition sample_weights :: vectorizer where
  "sample_weights corpus = Some [[3 / 5, 4 / 5], [1, 0], [0, 0]]"


section \<open>The cleaner is idempotent\<close>

lemma lower_char_not_upper: "\<not> is_upper (lower_char c)"
  by (auto simp: lower_char_def is_upper_def less_eq_char_def)

lemma is_space_space: "is_space (CHR '' '')"
  by (simp add: is_space_def)

lemma lower_not_upper: "is_lower c \<Longrightarrow> \<not> is_upper c"
  by (auto simp: is_lower_def is_upper_def less_eq_char_def)

lemma digit_not_upper: "is_digit c \<Longrightarrow> \<not> is_upper c"
  by (auto simp: is_digit_def is_upper_def less_eq_char_def)

lemma lower_not_space: "is_lower c \<Longrightarrow> \<not> is_space c"
  by (auto simp: is_lower_def is_space_def less_eq_char_def Let_def)

lemma digit_not_space: "is_digit c \<Longrightarrow> \<not> is_space c"
  by (auto simp: is_digit_def is_space_def less_eq_char_def Let_def)

lemma plain_normalised: "plain (re_sub_non_alnum (lower s))"
  using lower_char_not_upper by (auto simp: plain_def re_sub_non_alnum_def lower_def)

lemma normalise_plain:
  assumes "plain s"
  shows "re_sub_non_alnum (lower s) = s"
proof -
  have "\<And>c. c \<in> set s \<Longrightarrow> lower_char c = c"
    using assms lower_not_upper digit_not_upper
    by (auto simp: plain_def lower_char_def is_upper_def less_eq_char_def)
  then have "lower s = s" by (simp add: lower_def map_idI)
  moreover have "re_sub_non_alnum s = s"
    using assms by (auto simp: plain_def re_sub_non_alnum_def intro!: map_idI)
  ultimately show ?thesis by simp
qed

lemma split_from_tokens:
  "(\<forall>c \<in> set w. is_lower c \<or> is_digit c) \<Longrightarrow> plain s \<Longrightarrow> t \<in> set (split_from w s)
     \<Longrightarrow> plain_token t"
proof (induction w s rule: split_from.induct)
  case (1 w)
  then show ?case by (auto simp: plain_token_def split: if_splits)
next
  case (2 w c cs)
  have pcs: "plain cs" using "2.prems"(2) by (simp add: plain_def)
  show ?case
  proof (cases "is_space c")
    case True
    then show ?thesis
      using 2 pcs by (cases "w = []") (auto simp: plain_token_def)
  next
    case False
    then have "is_lower c \<or> is_digit c"
      using "2.prems"(2) is_space_space by (auto simp: plain_def)
    then show ?thesis using 2 pcs False by auto
  qed
qed

lemma str_split_tokens: "plain s \<Longrightarrow> t \<in> set (str_split s) \<Longrightarrow> plain_token t"
  using split_from_tokens [of "[]" s t] by (simp add: str_split_def)

lemma split_from_word:
  "\<forall>c \<in> set t. \<not> is_space c \<Longrightarrow> split_from w (t @ s) = split_from (w @ t) s"
  by (induction t arbitrary: w) auto

lemma plain_token_no_space: "plain_token t \<Longrightarrow> \<forall>c \<in> set t. \<not> is_space c"
  using lower_not_space digit_not_space by (auto simp: plain_token_def)

lemma str_split_join: "\<forall>t \<in> set ts. plain_token t \<Longrightarrow> str_split (join ts) = ts"
proof (induction ts rule: join.induct)
  case 1
  then show ?case by (simp add: str_split_def)
next
  case (2 t)
  then have "plain_token t" by simp
  then show ?case
    using split_from_word [of t "[]" "[]"] plain_token_no_space [of t]
    by (simp add: str_split_def plain_token_def)
next
  case (3 t u ts)
  then have t: "plain_token t" and rest: "str_split (join (u # ts)) = u # ts" by simp_all
  have "split_from [] (t @ CHR '' '' # join (u # ts)) = split_from t (CHR '' '' # join (u # ts))"
    using split_from_word [of t "[]"] plain_token_no_space [OF t] by simp
  also have "\<dots> = t # split_from [] (join (u # ts))"
    using t is_space_space by (simp add: plain_token_def)
  finally show ?case using rest by (simp add: str_split_def)
qed

lemma plain_join: "\<forall>t \<in> set ts. plain_token t \<Longrightarrow> plain (join ts)"
  by (induction ts rule: join.induct) (auto simp: plain_def plain_token_def)

lemma pieces_tokens: "\<forall>t \<in> set pieces. plain_token t \<and> contraction t = [t]"
  by code_simp

lemma contraction_tokens:
  assumes "plain_token w" and "t \<in> set (contraction w)"
  shows "plain_token t \<and> contraction t = [t]"
proof (cases "w \<in> set contractions")
  case True
  then have "t \<in> set pieces"
    using assms(2) by (auto simp: contraction_def pieces_def)
  then show ?thesis using pieces_tokens by blast
next
  case False
  then show ?thesis using assms by (simp add: contraction_def)
qed

lemma word_tokenize_tokens:
  "plain s \<Longrightarrow> t \<in> set (word_tokenize s) \<Longrightarrow> plain_token t \<and> contraction t = [t]"
  using str_split_tokens contraction_tokens by (auto simp: word_tokenize_def)

lemma concat_contraction_id:
  "\<forall>t \<in> set ts. contraction t = [t] \<Longrightarrow> concat (map contraction ts) = ts"
  by (induction ts) auto

lemma word_tokenize_join:
  "\<forall>t \<in> set ts. plain_token t \<and> contraction t = [t] \<Longrightarrow> word_tokenize (join ts) = ts"
  by (simp add: word_tokenize_def str_split_join concat_contraction_id)

lemma cleaner_tokens:
  "\<exists>ts. cleaner sw x = join ts \<and> (\<forall>t \<in> set ts. plain_token t \<and> contraction t = [t] \<and> t \<notin> set sw)"
proof -
  define ts where
    "ts = filter (\<lambda>token. token \<notin> set sw) (word_tokenize (re_sub_non_alnum (lower (str x))))"
  have "cleaner sw x = join ts" by (simp add: cleaner_def ts_def)
  moreover have "\<forall>t \<in> set ts. plain_token t \<and> contraction t = [t] \<and> t \<notin> set sw"
    using word_tokenize_tokens [OF plain_normalised] by (auto simp: ts_def)
  ultimately show ?thesis by blast
qed

text \<open>
  C5. Cleaning is idempotent: cleaning a cleaned text gives the cleaned text back. This
  holds for every input of the cleaner, so in particular for every text made of letters,
  digits and stop-words.
\<close>

theorem cleaner_idempotent: "cleaner sw (StrCell (cleaner sw x)) = cleaner sw x"
proof -
  obtain ts where c: "cleaner sw x = join ts"
    and tok: "\<forall>t \<in> set ts. plain_token t \<and> contraction t = [t] \<and> t \<notin> set sw"
    using cleaner_tokens by blast
  have n: "re_sub_non_alnum (lower (join ts)) = join ts"
    using tok by (intro normalise_plain plain_join) simp
  have w: "word_tokenize (join ts) = ts" using tok by (intro word_tokenize_join) simp
  have f: "filter (\<lambda>token. token \<notin> set sw) ts = ts" using tok by (simp add: filter_id_conv)
  have "cleaner sw (StrCell (join ts)) = join ts"
    by (simp add: cleaner_def n w f)
  then show ?thesis by (simp only: c)
qed

theorem cleaner_idempotent_witness:
  "cleaner stop_words (StrCell (cleaner stop_words (StrCell ''Gimme the BKR01 report, you cannot wait!'')))
     = ''gim bkr01 report can not wait''"
proof -
  have "cleaner stop_words (StrCell ''Gimme the BKR01 report, you cannot wait!'')
          = ''gim bkr01 report can not wait''"
    by code_simp
  then show ?thesis
    using cleaner_idempotent [of stop_words "StrCell ''Gimme the BKR01 report, you cannot wait!''"]
    by simp
qed

section \<open>The similarity matrix\<close>

lemma dot_Nil [simp]: "dot [] y = 0" "dot x [] = 0"
  by (simp_all add: dot_def)

lemma dot_Cons [simp]: "dot (a # x) (b # y) = a * b + dot x y"
  by (simp add: dot_def)

lemma dot_commute: "dot x y = dot y x"
proof (induction x arbitrary: y)
  case Nil
  then show ?case by simp
next
  case (Cons a x)
  then show ?case by (cases y) (simp_all add: mult.commute)
qed

lemma linear_kernel_nth:
  "i < length X \<Longrightarrow> j < length Y \<Longrightarrow> linear_kernel X Y ! i ! j = dot (X ! i) (Y ! j)"
  by (simp add: linear_kernel_def)

lemma length_linear_kernel: "length (linear_kernel X Y) = length X"
  by (simp add: linear_kernel_def)

lemma cosine_sim_kernel:
  "dataframe_column_to_cosine_sim fit_transform df column = Inr (corpus, tfidf_matrix, cosine_sim)
     \<Longrightarrow> cosine_sim = linear_kernel tfidf_matrix tfidf_matrix"
  by (auto simp: dataframe_column_to_cosine_sim_def split: sum.splits option.splits)

lemma sample_cosine_sim:
  "dataframe_column_to_cosine_sim sample_weights twins ''Title''
     = Inr ([StrCell ''Fix server'', StrCell ''fix server'', StrCell ''Plan party''],
            [[3 / 5, 4 / 5], [1, 0], [0, 0]],
            [[1, 3 / 5, 0], [3 / 5, 1, 0], [0, 0, 0]])"
  by code_simp

text \<open>
  C6. The similarity matrix built by \<^verbatim>\<open>dataframe_column_to_cosine_sim\<close> is symmetric: the
  entry in row \<open>i\<close> and column \<open>j\<close> is the entry in row \<open>j\<close> and column \<open>i\<close>, for every corpus
  and every weight matrix that the vectorizer returns. The entries are exact reals here,
  so the two are equal, not only close.
\<close>

theorem cosine_sim_symmetric:
  assumes "dataframe_column_to_cosine_sim fit_transform df column
             = Inr (corpus, tfidf_matrix, cosine_sim)"
      and "i < length cosine_sim" and "j < length cosine_sim"
  shows "cosine_sim ! i ! j = cosine_sim ! j ! i"
proof -
  have k: "cosine_sim = linear_kernel tfidf_matrix tfidf_matrix"
    using assms(1) by (rule cosine_sim_kernel)
  then have "i < length tfidf_matrix" "j < length tfidf_matrix"
    using assms(2,3) by (simp_all add: length_linear_kernel)
  then show ?thesis
    by (simp add: k linear_kernel_nth dot_commute [of "tfidf_matrix ! i"])
qed

theorem cosine_sim_symmetric_witness:
  "[[1, 3 / 5, 0], [3 / 5, 1, 0], [0, 0, 0 :: real]] ! 0 ! 1
     = [[1, 3 / 5, 0], [3 / 5, 1, 0], [0, 0, 0]] ! 1 ! 0"
  by (rule cosine_sim_symmetric [OF sample_cosine_sim]) simp_all


section \<open>The recommender\<close>

lemma getitem_error: "getitem df c = Inl e \<Longrightarrow> e = KeyError"
  by (auto simp: getitem_def split: option.splits)

lemma getitems_error: "getitems df cs = Inl e \<Longrightarrow> e = KeyError"
  by (auto simp: getitems_def split: option.splits)

lemma iloc_error: "iloc df ns = Inl e \<Longrightarrow> e = IndexError"
  by (auto simp: iloc_def split: if_splits)

lemma heap_after_reset:
  "h[df := reset_index (h ! df)] ! df = reset_index (h ! df) \<or> h[df := reset_index (h ! df)] ! df = h ! df"
proof (cases "df < length h")
  case True
  then show ?thesis by simp
next
  case False
  then have "h[df := reset_index (h ! df)] = h" by (intro list_update_beyond) simp
  then show ?thesis by simp
qed

lemma frame_after_reset:
  "columns (h[df := reset_index (h ! df)] ! df) = columns (h ! df)"
  "rows (h[df := reset_index (h ! df)] ! df) = rows (h ! df)"
  using heap_after_reset [of h df] by (auto simp: reset_index_def)

lemma getitem_after_reset:
  "getitem (h[df := reset_index (h ! df)] ! df) c = getitem (h ! df) c"
  unfolding getitem_def frame_after_reset ..

text \<open>The outcomes of \<^verbatim>\<open>get_recommendations\<close>, one for each way through lines 86 to 113.\<close>

lemma get_recommendations_invalid:
  "\<not> (1 < top_n \<and> top_n < 20) \<Longrightarrow>
     get_recommendations title cosine_sim df column top_n h = (Inl ValueError_top_n, h)"
  by (auto simp: get_recommendations_def)

lemma get_recommendations_no_column:
  assumes "1 < top_n" and "top_n < 20" and "getitem (h ! df) column = Inl e"
  shows "get_recommendations title cosine_sim df column top_n h
           = (Inl KeyError, h[df := reset_index (h ! df)])"
  using assms getitem_error [OF assms(3)]
  by (simp add: get_recommendations_def getitem_after_reset)

lemma get_recommendations_no_title:
  assumes "1 < top_n" and "top_n < 20" and "getitem (h ! df) column = Inr vals"
      and "locate (StrCell title) vals = []"
  shows "get_recommendations title cosine_sim df column top_n h
           = (Inl KeyError, h[df := reset_index (h ! df)])"
  using assms by (simp add: get_recommendations_def getitem_after_reset)

lemma get_recommendations_no_scores:
  assumes "1 < top_n" and "top_n < 20" and "getitem (h ! df) column = Inr vals"
      and "locate (StrCell title) vals = [idx]" and "length cosine_sim \<le> idx"
  shows "get_recommendations title cosine_sim df column top_n h
           = (Inl IndexError, h[df := reset_index (h ! df)])"
  using assms by (simp add: get_recommendations_def getitem_after_reset)

lemma get_recommendations_no_projection:
  assumes "1 < top_n" and "top_n < 20" and "getitem (h ! df) column = Inr vals"
      and "locate (StrCell title) vals = [idx]" and "idx < length cosine_sim"
      and "getitems (h[df := reset_index (h ! df)] ! df) [''ID'', column, ''Deadline''] = Inl e"
  shows "get_recommendations title cosine_sim df column top_n h
           = (Inl KeyError, h[df := reset_index (h ! df)])"
  using assms getitems_error [OF assms(6)]
  by (simp add: get_recommendations_def getitem_after_reset)

lemma get_recommendations_ranked:
  assumes "1 < top_n" and "top_n < 20" and "getitem (h ! df) column = Inr vals"
      and "locate (StrCell title) vals = [idx]" and "idx < length cosine_sim"
      and "getitems (h[df := reset_index (h ! df)] ! df) [''ID'', column, ''Deadline'']
             = Inr projection"
  shows "get_recommendations title cosine_sim df column top_n h
           = (iloc projection (item_indices (cosine_sim ! idx) top_n),
              h[df := reset_index (h ! df)])"
  using assms by (simp add: get_recommendations_def getitem_after_reset)

text \<open>The same for a title found in several rows.\<close>

lemma get_recommendations_several:
  assumes "1 < top_n" and "top_n < 20" and "getitem (h ! df) column = Inr vals"
      and "locate (StrCell title) vals = i # j # rest"
  shows "get_recommendations title cosine_sim df column top_n h
           = (if \<exists>n \<in> set (i # j # rest). length cosine_sim \<le> n
              then (Inl IndexError, h[df := reset_index (h ! df)])
              else if \<exists>row \<in> set (map (\<lambda>n. cosine_sim ! n) (i # j # rest)). 2 \<le> length row
              then (Inl ValueError_ambiguous, h[df := reset_index (h ! df)])
              else
                (case getitems (h[df := reset_index (h ! df)] ! df)
                        [''ID'', column, ''Deadline''] of
                   Inl e \<Rightarrow> (Inl e, h[df := reset_index (h ! df)])
                 | Inr projection \<Rightarrow>
                     (iloc projection
                        (block_indices (map (\<lambda>n. cosine_sim ! n) (i # j # rest)) top_n),
                      h[df := reset_index (h ! df)])))"
  using assms
  by (simp only: get_recommendations_def getitem_after_reset Let_def list.case sum.case
      not_less simp_thms if_False if_True)

lemma get_recommendations_cases:
  obtains (invalid) "\<not> (1 < top_n \<and> top_n < 20)"
      "get_recommendations title cosine_sim df column top_n h = (Inl ValueError_top_n, h)"
  | (key) "1 < top_n" "top_n < 20"
      "get_recommendations title cosine_sim df column top_n h
         = (Inl KeyError, h[df := reset_index (h ! df)])"
  | (ambiguous) "1 < top_n" "top_n < 20"
      "get_recommendations title cosine_sim df column top_n h
         = (Inl ValueError_ambiguous, h[df := reset_index (h ! df)])"
  | (scores) "1 < top_n" "top_n < 20"
      "get_recommendations title cosine_sim df column top_n h
         = (Inl IndexError, h[df := reset_index (h ! df)])"
  | (ranked) vals idx projection where "1 < top_n" "top_n < 20"
      "getitem (h ! df) column = Inr vals" "locate (StrCell title) vals = [idx]"
      "idx < length cosine_sim"
      "getitems (h[df := reset_index (h ! df)] ! df) [''ID'', column, ''Deadline'']
         = Inr projection"
      "get_recommendations title cosine_sim df column top_n h
         = (iloc projection (item_indices (cosine_sim ! idx) top_n),
            h[df := reset_index (h ! df)])"
  | (several) vals idxs projection where "1 < top_n" "top_n < 20"
      "getitem (h ! df) column = Inr vals" "locate (StrCell title) vals = idxs"
      "2 \<le> length idxs"
      "getitems (h[df := reset_index (h ! df)] ! df) [''ID'', column, ''Deadline'']
         = Inr projection"
      "get_recommendations title cosine_sim df column top_n h
         = (iloc projection (block_indices (map (\<lambda>n. cosine_sim ! n) idxs) top_n),
            h[df := reset_index (h ! df)])"
proof (cases "1 < top_n \<and> top_n < 20")
  case False
  then show ?thesis using invalid get_recommendations_invalid by blast
next
  case valid: True
  show ?thesis
  proof (cases "getitem (h ! df) column")
    case (Inl e)
    then show ?thesis using key valid get_recommendations_no_column by blast
  next
    case (Inr vals)
    show ?thesis
    proof (cases "locate (StrCell title) vals")
      case Nil
      then show ?thesis using key valid Inr get_recommendations_no_title by blast
    next
      case (Cons idx rest)
      show ?thesis
      proof (cases rest)
        case (Cons j rest')
        then have l: "locate (StrCell title) vals = idx # j # rest'"
          using \<open>locate (StrCell title) vals = idx # rest\<close> by simp
        have run: "get_recommendations title cosine_sim df column top_n h
           = (if \<exists>n \<in> set (idx # j # rest'). length cosine_sim \<le> n
              then (Inl IndexError, h[df := reset_index (h ! df)])
              else if \<exists>row \<in> set (map (\<lambda>n. cosine_sim ! n) (idx # j # rest')). 2 \<le> length row
              then (Inl ValueError_ambiguous, h[df := reset_index (h ! df)])
              else
                (case getitems (h[df := reset_index (h ! df)] ! df)
                        [''ID'', column, ''Deadline''] of
                   Inl e \<Rightarrow> (Inl e, h[df := reset_index (h ! df)])
                 | Inr projection \<Rightarrow>
                     (iloc projection
                        (block_indices (map (\<lambda>n. cosine_sim ! n) (idx # j # rest')) top_n),
                      h[df := reset_index (h ! df)])))"
          using valid Inr l by (intro get_recommendations_several) simp_all
        show ?thesis
        proof (cases "\<exists>n \<in> set (idx # j # rest'). length cosine_sim \<le> n")
          case True
          then have "get_recommendations title cosine_sim df column top_n h
                       = (Inl IndexError, h[df := reset_index (h ! df)])"
            using run by (simp only: if_True)
          then show ?thesis using scores valid by blast
        next
          case in_range: False
          show ?thesis
          proof (cases "\<exists>row \<in> set (map (\<lambda>n. cosine_sim ! n) (idx # j # rest')).
                          2 \<le> length row")
            case True
            then have "get_recommendations title cosine_sim df column top_n h
                         = (Inl ValueError_ambiguous, h[df := reset_index (h ! df)])"
              using run in_range by (simp only: if_True if_False)
            then show ?thesis using ambiguous valid by blast
          next
            case short: False
            show ?thesis
            proof (cases "getitems (h[df := reset_index (h ! df)] ! df)
                            [''ID'', column, ''Deadline'']")
              case (Inl e)
              then have "e = KeyError" by (rule getitems_error)
              then have "get_recommendations title cosine_sim df column top_n h
                           = (Inl KeyError, h[df := reset_index (h ! df)])"
                using run in_range short Inl by (simp only: if_False sum.case)
              then show ?thesis using key valid by blast
            next
              case (Inr projection)
              have "2 \<le> length (idx # j # rest')" by simp
              moreover have "get_recommendations title cosine_sim df column top_n h
                  = (iloc projection
                       (block_indices (map (\<lambda>n. cosine_sim ! n) (idx # j # rest')) top_n),
                     h[df := reset_index (h ! df)])"
                using run in_range short Inr by (simp only: if_False sum.case)
              ultimately show ?thesis
                using several [OF _ _ \<open>getitem (h ! df) column = Inr vals\<close> l _ Inr] valid
                by blast
            qed
          qed
        qed
      next
        case Nil
        then have l: "locate (StrCell title) vals = [idx]"
          using \<open>locate (StrCell title) vals = idx # rest\<close> by simp
        show ?thesis
        proof (cases "idx < length cosine_sim")
          case False
          then have "length cosine_sim \<le> idx" by simp
          then show ?thesis using scores valid Inr l get_recommendations_no_scores by blast
        next
          case True
          show ?thesis
          proof (cases "getitems (h[df := reset_index (h ! df)] ! df)
                          [''ID'', column, ''Deadline'']")
            case (Inl e)
            then show ?thesis
              using key valid Inr l True get_recommendations_no_projection by blast
          next
            case (Inr projection)
            then show ?thesis
              using ranked valid \<open>getitem (h ! df) column = Inr vals\<close> l True
                get_recommendations_ranked by blast
          qed
        qed
      qed
    qed
  qed
qed

lemma get_recommendations_error:
  assumes "fst (get_recommendations title cosine_sim df column top_n h) = Inl e"
  shows "e \<in> {ValueError_top_n, KeyError, IndexError, ValueError_ambiguous}"
proof (cases title cosine_sim df column top_n h rule: get_recommendations_cases)
  case (ranked vals idx projection)
  then show ?thesis using assms iloc_error by auto
next
  case (several vals idxs projection)
  then show ?thesis using assms iloc_error by auto
qed (use assms in auto)

text \<open>
  C2. \<^verbatim>\<open>get_recommendations\<close> raises the invalid-argument error of line 91 exactly when
  \<open>top_n \<le> 1\<close> or \<open>top_n \<ge> 20\<close>: 0, 1 and 20 are refused, 2 to 19 never are.
\<close>

theorem top_n_validated:
  "fst (get_recommendations title cosine_sim df column top_n h) = Inl ValueError_top_n
     \<longleftrightarrow> top_n \<le> 1 \<or> 20 \<le> top_n"
proof (cases title cosine_sim df column top_n h rule: get_recommendations_cases)
  case (ranked vals idx projection)
  then show ?thesis using iloc_error by fastforce
next
  case (several vals idxs projection)
  then show ?thesis using iloc_error by fastforce
qed auto

theorem top_n_validated_witness:
  "fst (get_recommendations ''Backup'' twins_sim 0 ''Title'' 0 [tasks]) = Inl ValueError_top_n
   \<and> fst (get_recommendations ''Backup'' twins_sim 0 ''Title'' 1 [tasks]) = Inl ValueError_top_n
   \<and> fst (get_recommendations ''Backup'' twins_sim 0 ''Title'' 20 [tasks]) = Inl ValueError_top_n
   \<and> fst (get_recommendations ''Backup'' twins_sim 0 ''Title'' 2 [tasks]) \<noteq> Inl ValueError_top_n
   \<and> fst (get_recommendations ''Backup'' twins_sim 0 ''Title'' 19 [tasks]) \<noteq> Inl ValueError_top_n"
  using top_n_validated [of "''Backup''" twins_sim 0 "''Title''" 0 "[tasks]"]
    top_n_validated [of "''Backup''" twins_sim 0 "''Title''" 1 "[tasks]"]
    top_n_validated [of "''Backup''" twins_sim 0 "''Title''" 20 "[tasks]"]
    top_n_validated [of "''Backup''" twins_sim 0 "''Title''" 2 "[tasks]"]
    top_n_validated [of "''Backup''" twins_sim 0 "''Title''" 19 "[tasks]"]
  by simp

subsection \<open>Looking the title up\<close>

lemma filter_eq_upt: "i < n \<Longrightarrow> filter (\<lambda>j. j = i) [0..<n] = [i]"
  by (induction n) (auto simp: less_Suc_eq)

lemma locate_absent: "key \<notin> set vals \<Longrightarrow> locate key vals = []"
  by (auto simp: locate_def filter_empty_conv)

lemma locate_distinct:
  assumes "distinct vals" and "i < length vals"
  shows "locate (vals ! i) vals = [i]"
proof -
  have "filter (\<lambda>j. vals ! j = vals ! i) [0..<length vals]
          = filter (\<lambda>j. j = i) [0..<length vals]"
    using assms by (intro filter_cong) (auto simp: nth_eq_iff_index_eq)
  then show ?thesis using assms(2) by (simp add: locate_def filter_eq_upt)
qed

lemma locate_single:
  assumes "locate key vals = [idx]"
  shows "idx < length vals \<and> vals ! idx = key
           \<and> (\<forall>j < length vals. vals ! j = key \<longrightarrow> j = idx)"
proof -
  have s: "set (locate key vals) = {idx}" using assms by simp
  have "\<And>j. j \<in> set (locate key vals) \<longleftrightarrow> j < length vals \<and> vals ! j = key"
    by (auto simp: locate_def)
  then show ?thesis unfolding s by auto
qed

lemma position_Some: "c \<in> set cs \<Longrightarrow> \<exists>k. position c cs = Some k"
  by (induction cs) auto

lemma position_nth: "position c cs = Some k \<Longrightarrow> k < length cs \<and> cs ! k = c"
  by (induction cs arbitrary: k) (auto split: if_splits)

lemma position_None: "position c cs = None \<longleftrightarrow> c \<notin> set cs"
  by (induction cs) auto

lemma getitem_columns: "getitem df c = Inr vals \<Longrightarrow> c \<in> set (columns df)"
  using position_None [of c "columns df"] by (auto simp: getitem_def split: option.splits)

lemma getitems_three:
  assumes "a \<in> set (columns df)" and "b \<in> set (columns df)" and "c \<in> set (columns df)"
  shows "\<exists>projection. getitems df [a, b, c] = Inr projection"
  using position_Some [OF assms(1)] position_Some [OF assms(2)] position_Some [OF assms(3)]
  by (auto simp: getitems_def)

text \<open>
  C8. For a table with the columns \<^verbatim>\<open>ID\<close>, \<open>column\<close> and \<^verbatim>\<open>Deadline\<close> whose values in \<open>column\<close>
  are unique, and a valid \<open>top_n\<close>: a title that is not among the values of \<open>column\<close>
  makes \<^verbatim>\<open>get_recommendations\<close> fail with the key-not-found error, and a title that is among
  them never does.
\<close>

theorem title_lookup:
  assumes "1 < top_n" and "top_n < 20"
      and "getitem (h ! df) column = Inr vals" and "distinct vals"
      and "''ID'' \<in> set (columns (h ! df))" and "''Deadline'' \<in> set (columns (h ! df))"
  shows "(StrCell title \<notin> set vals \<longrightarrow>
            fst (get_recommendations title cosine_sim df column top_n h) = Inl KeyError)
       \<and> (StrCell title \<in> set vals \<longrightarrow>
            fst (get_recommendations title cosine_sim df column top_n h) \<noteq> Inl KeyError)"
proof (intro conjI impI)
  assume "StrCell title \<notin> set vals"
  then have "locate (StrCell title) vals = []" by (rule locate_absent)
  then show "fst (get_recommendations title cosine_sim df column top_n h) = Inl KeyError"
    using get_recommendations_no_title [OF assms(1-3)] by simp
next
  assume "StrCell title \<in> set vals"
  then obtain idx where idx: "idx < length vals" "vals ! idx = StrCell title"
    by (auto simp: in_set_conv_nth)
  then have l: "locate (StrCell title) vals = [idx]"
    using locate_distinct [OF assms(4), of idx] by simp
  have "column \<in> set (columns (h ! df))" using assms(3) by (rule getitem_columns)
  then obtain projection
    where p: "getitems (h[df := reset_index (h ! df)] ! df) [''ID'', column, ''Deadline'']
                = Inr projection"
    using getitems_three [of "''ID''" "h[df := reset_index (h ! df)] ! df" column "''Deadline''"]
      assms(5,6) by (auto simp: frame_after_reset)
  show "fst (get_recommendations title cosine_sim df column top_n h) \<noteq> Inl KeyError"
  proof (cases "idx < length cosine_sim")
    case True
    then show ?thesis
      using get_recommendations_ranked [OF assms(1-3) l True p] iloc_error by fastforce
  next
    case False
    then have "length cosine_sim \<le> idx" by simp
    then show ?thesis
      using get_recommendations_no_scores [OF assms(1-3) l] by simp
  qed
qed

lemma tasks_titles:
  "getitem ([tasks] ! 0) ''Title'' = Inr [StrCell ''Audit'', StrCell ''Backup'', StrCell ''Cleanup'']"
  by code_simp

theorem title_lookup_witness:
  "fst (get_recommendations ''Deploy'' twins_sim 0 ''Title'' 2 [tasks]) = Inl KeyError
   \<and> fst (get_recommendations ''Backup'' twins_sim 0 ''Title'' 2 [tasks]) \<noteq> Inl KeyError"
proof -
  have d: "distinct [StrCell ''Audit'', StrCell ''Backup'', StrCell ''Cleanup'']" by simp
  have c: "''ID'' \<in> set (columns ([tasks] ! 0))" "''Deadline'' \<in> set (columns ([tasks] ! 0))"
    by (simp_all add: tasks_def)
  have v: "(1::int) < 2" "(2::int) < 20" by simp_all
  show ?thesis
    using title_lookup [OF v tasks_titles d c, of "''Deploy''" twins_sim]
      title_lookup [OF v tasks_titles d c, of "''Backup''" twins_sim]
    by simp
qed

subsection \<open>Ranking\<close>

text \<open>The first entry of a stable sort is the first entry of the list that has the least
  key.\<close>

lemma sort_key_hd:
  fixes f :: "'a \<Rightarrow> 'k::linorder"
  assumes i: "i < length xs"
      and least: "\<forall>y \<in> set xs. f (xs ! i) \<le> f y"
      and first: "\<forall>j < i. f (xs ! j) \<noteq> f (xs ! i)"
  shows "sort_key f xs \<noteq> [] \<and> hd (sort_key f xs) = xs ! i"
proof -
  define ys where "ys = sort_key f xs"
  define k where "k = f (xs ! i)"
  have ne: "ys \<noteq> []" using i by (auto simp: ys_def simp flip: length_greater_0_conv)
  then obtain y ys' where ys: "ys = y # ys'" by (cases ys) auto
  have "y \<in> set xs" using ys by (metis list.set_intros(1) set_sort ys_def)
  then have "k \<le> f y" using least by (simp add: k_def)
  moreover have "f y \<le> k"
  proof -
    have "sorted (map f ys)" by (simp add: ys_def)
    moreover have "xs ! i \<in> set ys" using i by (simp add: ys_def)
    ultimately show ?thesis using ys by (auto simp: k_def)
  qed
  ultimately have fy: "f y = k" by simp
  have "filter (\<lambda>z. f z = k) ys = filter (\<lambda>z. f z = k) xs"
    by (simp add: ys_def sort_key_stable)
  moreover have "filter (\<lambda>z. f z = k) ys = y # filter (\<lambda>z. f z = k) ys'"
    using fy ys by simp
  moreover have "filter (\<lambda>z. f z = k) xs = xs ! i # filter (\<lambda>z. f z = k) (drop (Suc i) xs)"
  proof -
    have "filter (\<lambda>z. f z = k) (take i xs) = []"
      using first i by (auto simp: filter_empty_conv in_set_conv_nth k_def)
    moreover have "xs = take i xs @ xs ! i # drop (Suc i) xs"
      using i by (rule id_take_nth_drop)
    ultimately show ?thesis
      by (metis (mono_tags, lifting) append_Nil filter.simps(2) filter_append k_def)
  qed
  ultimately have "y = xs ! i" by simp
  then show ?thesis using ne ys by (simp add: ys_def)
qed

lemma set_tl: "x \<in> set (tl xs) \<Longrightarrow> x \<in> set xs"
  by (cases xs) auto

lemma item_indices_eq:
  "item_indices scores top_n
     = map fst (take (nat (top_n + 1) - 1) (tl (sort_key (\<lambda>x. - snd x) (enumerate 0 scores))))"
  by (simp add: item_indices_def slice_def drop_Suc)

lemma length_item_indices:
  "0 \<le> top_n \<Longrightarrow> length (item_indices scores top_n) = min (nat top_n) (length scores - 1)"
  by (simp add: item_indices_eq nat_add_distrib)

lemma item_indices_tl:
  "set (item_indices scores top_n)
     \<subseteq> set (map fst (tl (sort_key (\<lambda>x. - snd x) (enumerate 0 scores))))"
  unfolding item_indices_eq by (auto dest: in_set_takeD)

lemma item_indices_range: "n \<in> set (item_indices scores top_n) \<Longrightarrow> n < length scores"
proof -
  assume "n \<in> set (item_indices scores top_n)"
  then have "n \<in> set (map fst (tl (sort_key (\<lambda>x. - snd x) (enumerate 0 scores))))"
    using item_indices_tl by blast
  then have "n \<in> fst ` set (sort_key (\<lambda>x. - snd x) (enumerate 0 scores))"
    by (auto dest!: set_tl)
  then show ?thesis by (auto simp: in_set_enumerate_eq)
qed

text \<open>The query's own position is not among the items when no earlier entry of its score
  row reaches its own score and no later entry exceeds it: then the entry dropped in line
  107 is the query's own.\<close>

lemma item_indices_self:
  assumes "\<forall>j < length scores. (j < idx \<longrightarrow> scores ! j < scores ! idx)
             \<and> (idx < j \<longrightarrow> scores ! j \<le> scores ! idx)"
  shows "idx \<notin> set (item_indices scores top_n)"
proof (cases "idx < length scores")
  case False
  then show ?thesis using item_indices_range [of idx scores top_n] by auto
next
  case True
  define xs where "xs = enumerate 0 scores"
  define ys where "ys = sort_key (\<lambda>x. - snd x) xs"
  have nth: "\<And>j. j < length scores \<Longrightarrow> xs ! j = (j, scores ! j)"
    by (simp add: xs_def nth_enumerate_eq)
  have len: "length xs = length scores" by (simp add: xs_def)
  have "\<forall>y \<in> set xs. - snd (xs ! idx) \<le> - snd y"
  proof
    fix y assume "y \<in> set xs"
    then obtain j where j: "j < length scores" "y = xs ! j"
      using len by (auto simp: in_set_conv_nth)
    then have "scores ! j \<le> scores ! idx"
      using assms by (cases "j = idx") (auto simp: not_less less_le dest: spec [of _ j])
    then show "- snd (xs ! idx) \<le> - snd y" using j True by (simp add: nth)
  qed
  moreover have "\<forall>j < idx. - snd (xs ! j) \<noteq> - snd (xs ! idx)"
  proof (intro allI impI)
    fix j assume "j < idx"
    then have "j < length scores" "scores ! j < scores ! idx" using assms True by auto
    then show "- snd (xs ! j) \<noteq> - snd (xs ! idx)" using True by (simp add: nth)
  qed
  ultimately have hd: "ys \<noteq> [] \<and> hd ys = xs ! idx"
    unfolding ys_def using True len by (intro sort_key_hd) simp_all
  have "distinct (map fst xs)" by (simp add: xs_def)
  then have "distinct (map fst ys)"
    by (simp add: ys_def distinct_map)
  moreover have "hd ys # tl ys = ys" using hd by (intro list.collapse) simp
  ultimately have "fst (hd ys) \<notin> set (map fst (tl ys))"
    by (metis distinct.simps(2) list.simps(9))
  then have "idx \<notin> set (map fst (tl ys))" using hd True by (simp add: nth)
  moreover have "set (item_indices scores top_n) \<subseteq> set (map fst (tl ys))"
    unfolding ys_def xs_def by (rule item_indices_tl)
  ultimately show ?thesis by auto
qed

subsection \<open>The returned table\<close>

lemma iloc_Inr:
  assumes "iloc df ns = Inr result"
  shows "rows result = map (\<lambda>n. rows df ! n) ns \<and> columns result = columns df
           \<and> (\<forall>n \<in> set ns. n < length (rows df))"
  using assms by (auto simp: iloc_def split: if_splits)

lemma getitems_three_Inr:
  assumes "getitems df [a, b, c] = Inr projection"
  shows "\<exists>ka kb kc. position a (columns df) = Some ka \<and> position b (columns df) = Some kb
           \<and> position c (columns df) = Some kc \<and> columns projection = [a, b, c]
           \<and> rows projection = map (\<lambda>row. [row ! ka, row ! kb, row ! kc]) (rows df)"
  using assms by (auto simp: getitems_def split: option.splits)

text \<open>The projection keeps the values of its middle column.\<close>

lemma getitem_projection:
  assumes "getitems df [a, b, c] = Inr projection"
  shows "getitem projection b = getitem df b"
proof -
  obtain ka kb kc where k: "position a (columns df) = Some ka" "position b (columns df) = Some kb"
      "columns projection = [a, b, c]"
      "rows projection = map (\<lambda>row. [row ! ka, row ! kb, row ! kc]) (rows df)"
    using getitems_three_Inr [OF assms] by blast
  show ?thesis
  proof (cases "b = a")
    case True
    then have "ka = kb" using k(1,2) by simp
    then show ?thesis using True k by (simp add: getitem_def)
  next
    case False
    then show ?thesis using k by (simp add: getitem_def)
  qed
qed

lemma getitem_length: "getitem df c = Inr vals \<Longrightarrow> length vals = length (rows df)"
  by (auto simp: getitem_def split: option.splits)

lemma getitem_iloc:
  assumes "getitem df c = Inr vals" and "iloc df ns = Inr result"
  shows "getitem result c = Inr (map (\<lambda>n. vals ! n) ns)"
proof -
  obtain k where k: "position c (columns df) = Some k" "vals = map (\<lambda>row. row ! k) (rows df)"
    using assms(1) by (auto simp: getitem_def split: option.splits)
  have r: "rows result = map (\<lambda>n. rows df ! n) ns" "columns result = columns df"
      "\<forall>n \<in> set ns. n < length (rows df)"
    using iloc_Inr [OF assms(2)] by simp_all
  show ?thesis using k r by (simp add: getitem_def)
qed

text \<open>
  What the ranking gives when the title is found in one row, \<open>idx\<close>, of a table of \<open>N\<close>
  rows: a returned table has at most \<open>top_n\<close> rows, and exactly \<open>min(top_n, N - 1)\<close> rows
  when the score row of the title has \<open>N\<close> entries; and the row of the title is not among
  them when the values of \<open>column\<close> are unique and the title's own score ranks first, no
  earlier row reaching it and no later row exceeding it.
\<close>

lemma ranked_recommendations:
  assumes "1 < top_n" and "top_n < 20"
      and "get_recommendations title cosine_sim df column top_n h = (Inr result, h')"
      and "getitem (h ! df) column = Inr vals"
      and "locate (StrCell title) vals = [idx]"
  shows "int (length (rows result)) \<le> top_n
       \<and> (length (cosine_sim ! idx) = length (rows (h ! df)) \<longrightarrow>
            int (length (rows result)) = min top_n (int (length (rows (h ! df))) - 1))
       \<and> (distinct vals
            \<and> (\<forall>j < length (cosine_sim ! idx).
                  (j < idx \<longrightarrow> cosine_sim ! idx ! j < cosine_sim ! idx ! idx)
                  \<and> (idx < j \<longrightarrow> cosine_sim ! idx ! j \<le> cosine_sim ! idx ! idx)) \<longrightarrow>
            (\<exists>rvals. getitem result column = Inr rvals \<and> StrCell title \<notin> set rvals))"
proof (cases title cosine_sim df column top_n h rule: get_recommendations_cases)
  case (ranked vals' idx' projection)
  have "vals' = vals" using ranked(3) assms(4) by simp
  then have "idx' = idx" using ranked(4) assms(5) by simp
  have at: "idx < length vals" "vals ! idx = StrCell title"
    using locate_single [OF assms(5)] by simp_all
  define ns where "ns = item_indices (cosine_sim ! idx) top_n"
  have iloc: "iloc projection ns = Inr result"
    using ranked(7) assms(3) \<open>idx' = idx\<close> by (simp add: ns_def)
  have rows: "rows result = map (\<lambda>n. rows projection ! n) ns"
    and range: "\<forall>n \<in> set ns. n < length (rows projection)"
    using iloc_Inr [OF iloc] by simp_all
  have len: "length (rows result) = min (nat top_n) (length (cosine_sim ! idx) - 1)"
    using assms(1) by (simp add: rows ns_def length_item_indices)
  have col: "getitem projection column = Inr vals"
    using getitem_projection [OF ranked(6)] assms(4) by (simp add: getitem_after_reset)
  have rvals: "getitem result column = Inr (map (\<lambda>n. vals ! n) ns)"
    using col iloc by (rule getitem_iloc)
  have size: "int (length (rows result)) \<le> top_n" using assms(1) len by simp
  have exact: "int (length (rows result)) = min top_n (int (length (rows (h ! df))) - 1)"
    if "length (cosine_sim ! idx) = length (rows (h ! df))"
  proof -
    define N where "N = length (rows (h ! df))"
    have "idx < N" using at(1) getitem_length [OF assms(4)] by (simp add: N_def)
    moreover have "length (rows result) = min (nat top_n) (N - 1)"
      using that len by (simp add: N_def)
    ultimately have "int (length (rows result)) = min top_n (int N - 1)"
      using assms(1) by arith
    then show ?thesis by (simp add: N_def)
  qed
  have self: "StrCell title \<notin> set (map (\<lambda>n. vals ! n) ns)"
    if d: "distinct vals"
      and top: "\<forall>j < length (cosine_sim ! idx).
                  (j < idx \<longrightarrow> cosine_sim ! idx ! j < cosine_sim ! idx ! idx)
                  \<and> (idx < j \<longrightarrow> cosine_sim ! idx ! j \<le> cosine_sim ! idx ! idx)"
  proof
    assume "StrCell title \<in> set (map (\<lambda>n. vals ! n) ns)"
    then obtain n where n: "n \<in> set ns" "vals ! n = StrCell title" by auto
    have "length (rows projection) = length vals"
      using getitem_length [OF col] by simp
    then have "n < length vals" using range n(1) by simp
    then have "n = idx" using d n(2) at by (metis nth_eq_iff_index_eq)
    moreover have "idx \<notin> set ns" unfolding ns_def using top by (rule item_indices_self)
    ultimately show False using n(1) by simp
  qed
  show ?thesis using size exact self rvals by blast
next
  case (several vals' idxs projection)
  then have "idxs = [idx]" using assms(4,5) by simp
  then have False using several(5) by simp
  then show ?thesis ..
qed (use assms(3) in simp_all)

text \<open>
  C1. For every table and valid \<open>top_n\<close>, the rows that \<^verbatim>\<open>get_recommendations\<close> returns should
  never include the row whose value in \<open>column\<close> is the query title. The code returns that
  very row here. The titles of \<open>twins\<close> are unique; its first two rows clean to the same
  text, so both score 1 against the second row. Asked for the second title with
  \<open>top_n = 2\<close>, the stable sort ranks row 0 first, line 107 drops row 0 in place of the
  query's own entry, and the query's row (\<^verbatim>\<open>ID\<close> 2) comes back as its own first
  recommendation.
\<close>

theorem query_row_recommended:
  "get_recommendations ''fix server'' twins_sim 0 ''Title'' 2 [twins]
     = (Inr \<lparr>columns = [''ID'', ''Title'', ''Deadline''],
             index = [IntCell 1, IntCell 2],
             rows = [[IntCell 2, StrCell ''fix server'', StrCell ''2024-01-02''],
                     [IntCell 3, StrCell ''Plan party'', StrCell ''2024-01-03'']]\<rparr>,
        [twins])"
  by code_simp


section \<open>The frame preparer\<close>

lemma get_recommendations_heap:
  "snd (get_recommendations title cosine_sim df column top_n h) = h
     \<or> snd (get_recommendations title cosine_sim df column top_n h)
         = h[df := reset_index (h ! df)]"
  by (cases title cosine_sim df column top_n h rule: get_recommendations_cases) simp_all

lemma get_recommendations_frame:
  "r \<noteq> df \<Longrightarrow> snd (get_recommendations title cosine_sim df column top_n h) ! r = h ! r"
  using get_recommendations_heap [of title cosine_sim df column top_n h] by auto

lemma cosine_sim_error:
  "dataframe_column_to_cosine_sim fit_transform df column = Inl e
     \<Longrightarrow> e = KeyError \<or> e = VectorizerError"
  by (auto simp: dataframe_column_to_cosine_sim_def split: sum.splits option.splits
      dest: getitem_error)

text \<open>The outcomes of lines 146 to 155.\<close>

lemma clean_and_recommend_no_column:
  assumes "getitem (h ! df) column = Inl e"
  shows "clean_and_recommend sw fit_transform cleaned_title df title column top_n h
           = (Inl KeyError, h)"
  using assms getitem_error [OF assms] by (simp add: clean_and_recommend_def)

lemma clean_and_recommend_duplicate:
  assumes "getitem (h ! df) column = Inr vals"
      and "cleaned_title \<noteq> []"
      and "StrCell cleaned_title
             \<in> set (butlast (map (\<lambda>x. StrCell (cleaner sw (StrCell (str x)))) vals))"
  shows "clean_and_recommend sw fit_transform cleaned_title df title column top_n h
           = (Inl ValueError_same_task,
              h[df := setitem (h ! df) ''cleaned_column''
                        (map (\<lambda>x. StrCell (cleaner sw (StrCell (str x)))) vals)])"
  using assms by (simp add: clean_and_recommend_def Let_def)

lemma clean_and_recommend_no_matrix:
  assumes "getitem (h ! df) column = Inr vals"
      and "\<not> (cleaned_title \<noteq> [] \<and> StrCell cleaned_title
             \<in> set (butlast (map (\<lambda>x. StrCell (cleaner sw (StrCell (str x)))) vals)))"
      and "h1 = h[df := setitem (h ! df) ''cleaned_column''
                          (map (\<lambda>x. StrCell (cleaner sw (StrCell (str x)))) vals)]"
      and "dataframe_column_to_cosine_sim fit_transform (h1 ! df) ''cleaned_column'' = Inl e"
  shows "clean_and_recommend sw fit_transform cleaned_title df title column top_n h
           = (Inl e, h1)"
  using assms by (auto simp: clean_and_recommend_def Let_def)

lemma clean_and_recommend_delegate:
  assumes "getitem (h ! df) column = Inr vals"
      and "\<not> (cleaned_title \<noteq> [] \<and> StrCell cleaned_title
             \<in> set (butlast (map (\<lambda>x. StrCell (cleaner sw (StrCell (str x)))) vals)))"
      and "h1 = h[df := setitem (h ! df) ''cleaned_column''
                          (map (\<lambda>x. StrCell (cleaner sw (StrCell (str x)))) vals)]"
      and "dataframe_column_to_cosine_sim fit_transform (h1 ! df) ''cleaned_column''
             = Inr (corpus, tfidf_matrix, cosine_sim)"
  shows "clean_and_recommend sw fit_transform cleaned_title df title column top_n h
           = get_recommendations title cosine_sim df column top_n h1"
  using assms by (auto simp: clean_and_recommend_def Let_def)

lemma clean_and_recommend_cases:
  obtains (column) e where "getitem (h ! df) column = Inl e"
      "clean_and_recommend sw fit_transform cleaned_title df title column top_n h
         = (Inl KeyError, h)"
  | (duplicate) vals where "getitem (h ! df) column = Inr vals" "cleaned_title \<noteq> []"
      "StrCell cleaned_title
         \<in> set (butlast (map (\<lambda>x. StrCell (cleaner sw (StrCell (str x)))) vals))"
      "clean_and_recommend sw fit_transform cleaned_title df title column top_n h
         = (Inl ValueError_same_task,
            h[df := setitem (h ! df) ''cleaned_column''
                      (map (\<lambda>x. StrCell (cleaner sw (StrCell (str x)))) vals)])"
  | (matrix) vals e where "getitem (h ! df) column = Inr vals"
      "\<not> (cleaned_title \<noteq> [] \<and> StrCell cleaned_title
          \<in> set (butlast (map (\<lambda>x. StrCell (cleaner sw (StrCell (str x)))) vals)))"
      "e = KeyError \<or> e = VectorizerError"
      "clean_and_recommend sw fit_transform cleaned_title df title column top_n h
         = (Inl e, h[df := setitem (h ! df) ''cleaned_column''
                             (map (\<lambda>x. StrCell (cleaner sw (StrCell (str x)))) vals)])"
  | (delegate) vals cosine_sim where "getitem (h ! df) column = Inr vals"
      "\<not> (cleaned_title \<noteq> [] \<and> StrCell cleaned_title
          \<in> set (butlast (map (\<lambda>x. StrCell (cleaner sw (StrCell (str x)))) vals)))"
      "clean_and_recommend sw fit_transform cleaned_title df title column top_n h
         = get_recommendations title cosine_sim df column top_n
             (h[df := setitem (h ! df) ''cleaned_column''
                        (map (\<lambda>x. StrCell (cleaner sw (StrCell (str x)))) vals)])"
proof (cases "getitem (h ! df) column")
  case (Inl e)
  then show ?thesis using column clean_and_recommend_no_column by blast
next
  case (Inr vals)
  define h1 where "h1 = h[df := setitem (h ! df) ''cleaned_column''
                                  (map (\<lambda>x. StrCell (cleaner sw (StrCell (str x)))) vals)]"
  show ?thesis
  proof (cases "cleaned_title \<noteq> [] \<and> StrCell cleaned_title
                  \<in> set (butlast (map (\<lambda>x. StrCell (cleaner sw (StrCell (str x)))) vals))")
    case True
    then show ?thesis using duplicate [OF Inr] clean_and_recommend_duplicate [OF Inr] by blast
  next
    case no_dup: False
    show ?thesis
    proof (cases "dataframe_column_to_cosine_sim fit_transform (h1 ! df) ''cleaned_column''")
      case (Inl e)
      then show ?thesis
        using matrix [OF Inr no_dup, of e] cosine_sim_error [OF Inl]
          clean_and_recommend_no_matrix [OF Inr no_dup h1_def Inl]
        by (simp add: h1_def)
    next
      case (Inr triple)
      obtain corpus tfidf_matrix cosine_sim where "triple = (corpus, tfidf_matrix, cosine_sim)"
        by (cases triple) auto
      then show ?thesis
        using delegate [OF \<open>getitem (h ! df) column = Inr vals\<close> no_dup, of cosine_sim]
          clean_and_recommend_delegate [OF \<open>getitem (h ! df) column = Inr vals\<close> no_dup h1_def]
          Inr
        by (simp add: h1_def)
    qed
  qed
qed

lemma clean_and_recommend_error:
  assumes "fst (clean_and_recommend sw fit_transform cleaned_title df title column top_n h) = Inl e"
  shows "e \<in> {KeyError, ValueError_same_task, VectorizerError, ValueError_top_n, IndexError,
               ValueError_ambiguous}"
proof (cases sw fit_transform cleaned_title df title column top_n h
    rule: clean_and_recommend_cases)
  case (delegate vals cosine_sim)
  then show ?thesis using assms get_recommendations_error by fastforce
qed (use assms in auto)

lemma clean_and_recommend_frame:
  assumes "r \<noteq> df"
  shows "snd (clean_and_recommend sw fit_transform cleaned_title df title column top_n h) ! r
           = h ! r"
proof (cases sw fit_transform cleaned_title df title column top_n h
    rule: clean_and_recommend_cases)
  case (delegate vals cosine_sim)
  then show ?thesis using assms by (simp add: get_recommendations_frame)
qed (use assms in simp_all)

subsection \<open>Inserting the query\<close>

lemma insert_too_short:
  "length (str_split (cleaner sw (StrCell title))) < 2
     \<Longrightarrow> insert_query_row sw df title h = Inl IOError_too_short"
  by (simp add: insert_query_row_def)

lemma insert_shape:
  "2 \<le> length (str_split (cleaner sw (StrCell title))) \<Longrightarrow> length (columns (h ! df)) \<noteq> 4
     \<Longrightarrow> insert_query_row sw df title h = Inl ValueError_shape"
  by (simp add: insert_query_row_def DataFrame_def query_row_def)

lemma insert_ok:
  "2 \<le> length (str_split (cleaner sw (StrCell title))) \<Longrightarrow> length (columns (h ! df)) = 4
     \<Longrightarrow> insert_query_row sw df title h
           = Inr (cleaner sw (StrCell title), length h,
                  h @ [df_append (h ! df)
                         \<lparr>columns = columns (h ! df), index = [IntCell 0],
                          rows = [query_row title]\<rparr>])"
  by (simp add: insert_query_row_def DataFrame_def query_row_def alloc_def)

lemma initialize_too_short:
  "length (str_split (cleaner sw (StrCell title))) < 2
     \<Longrightarrow> initialize_frame_for_recommender sw fit_transform df title column top_n True h
           = (Inl IOError_too_short, h)"
  by (simp add: initialize_frame_for_recommender_def insert_too_short)

lemma initialize_shape:
  "2 \<le> length (str_split (cleaner sw (StrCell title))) \<Longrightarrow> length (columns (h ! df)) \<noteq> 4
     \<Longrightarrow> initialize_frame_for_recommender sw fit_transform df title column top_n True h
           = (Inl ValueError_shape, h)"
  by (simp add: initialize_frame_for_recommender_def insert_shape)

lemma initialize_inserted:
  "2 \<le> length (str_split (cleaner sw (StrCell title))) \<Longrightarrow> length (columns (h ! df)) = 4
     \<Longrightarrow> initialize_frame_for_recommender sw fit_transform df title column top_n True h
           = clean_and_recommend sw fit_transform (cleaner sw (StrCell title)) (length h)
               title column top_n
               (h @ [df_append (h ! df)
                       \<lparr>columns = columns (h ! df), index = [IntCell 0],
                        rows = [query_row title]\<rparr>])"
  by (simp add: initialize_frame_for_recommender_def insert_ok)

text \<open>
  C3. With \<open>is_new_query\<close> true, \<^verbatim>\<open>initialize_frame_for_recommender\<close> fails with the
  insufficient-input error of line 138 exactly when the cleaned title has fewer than two
  tokens, for every table and title; and then the store is as it was: no query row has
  been appended to any table.
\<close>

theorem too_short_query:
  "(fst (initialize_frame_for_recommender sw fit_transform df title column top_n True h)
      = Inl IOError_too_short
      \<longleftrightarrow> length (str_split (cleaner sw (StrCell title))) < 2)
   \<and> (length (str_split (cleaner sw (StrCell title))) < 2 \<longrightarrow>
        snd (initialize_frame_for_recommender sw fit_transform df title column top_n True h) = h)"
proof (cases "length (str_split (cleaner sw (StrCell title))) < 2")
  case True
  then show ?thesis by (simp add: initialize_too_short)
next
  case False
  then have long: "2 \<le> length (str_split (cleaner sw (StrCell title)))" by simp
  have "fst (initialize_frame_for_recommender sw fit_transform df title column top_n True h)
          \<noteq> Inl IOError_too_short"
  proof (cases "length (columns (h ! df)) = 4")
    case True
    show ?thesis
      unfolding initialize_inserted [OF long True]
      using clean_and_recommend_error by fastforce
  next
    case False
    then show ?thesis by (simp add: initialize_shape [OF long])
  qed
  then show ?thesis using False by simp
qed

lemma clean_task: "cleaner stop_words (StrCell ''Task'') = ''task''"
  by code_simp

theorem too_short_query_witness:
  "fst (initialize_frame_for_recommender stop_words unit_rows 0 ''Task'' ''Title'' 2 True [tasks])
     = Inl IOError_too_short
   \<and> snd (initialize_frame_for_recommender stop_words unit_rows 0 ''Task'' ''Title'' 2 True [tasks])
       = [tasks]"
proof -
  have "length (str_split (cleaner stop_words (StrCell ''Task''))) < 2"
    unfolding clean_task by code_simp
  then show ?thesis
    using too_short_query [of stop_words unit_rows 0 "''Task''" "''Title''" 2 "[tasks]"]
    by simp
qed

subsection \<open>The duplicate guard\<close>

lemma cleaner_str: "cleaner sw (StrCell (str x)) = cleaner sw x"
  by (simp add: cleaner_def)

lemma getitem_df_append:
  assumes "getitem df c = Inr vals"
  shows "\<exists>v. getitem (df_append df \<lparr>columns = cols, index = i, rows = [row]\<rparr>) c
              = Inr (vals @ [v])"
  using assms by (auto simp: getitem_def df_append_def split: option.splits)

lemma short_not_empty: "2 \<le> length (str_split s) \<Longrightarrow> s \<noteq> []"
  by (auto simp: str_split_def)

text \<open>
  C4, as the code has it. With \<open>is_new_query\<close> true, a cleaned title of at least two tokens, and a table of four
  columns among which is \<open>column\<close> (so that the query row can be appended),
  \<^verbatim>\<open>initialize_frame_for_recommender\<close> fails with the duplicate-input error of line 150 exactly
  when the cleaned title equals the cleaned value of some row that the table had before the
  insertion.
\<close>

theorem duplicate_guard:
  assumes "2 \<le> length (str_split (cleaner sw (StrCell title)))"
      and "length (columns (h ! df)) = 4"
      and "getitem (h ! df) column = Inr vals"
  shows "fst (initialize_frame_for_recommender sw fit_transform df title column top_n True h)
           = Inl ValueError_same_task
         \<longleftrightarrow> (\<exists>x \<in> set vals. cleaner sw x = cleaner sw (StrCell title))"
proof -
  define working where
    "working = df_append (h ! df)
                 \<lparr>columns = columns (h ! df), index = [IntCell 0], rows = [query_row title]\<rparr>"
  define h1 where "h1 = h @ [working]"
  define cleaned_title where "cleaned_title = cleaner sw (StrCell title)"
  have run: "initialize_frame_for_recommender sw fit_transform df title column top_n True h
               = clean_and_recommend sw fit_transform cleaned_title (length h)
                   title column top_n h1"
    using initialize_inserted [OF assms(1,2)] by (simp add: h1_def working_def cleaned_title_def)
  have "\<exists>v. getitem working column = Inr (vals @ [v])"
    unfolding working_def using assms(3) by (rule getitem_df_append)
  then obtain v where col: "getitem (h1 ! length h) column = Inr (vals @ [v])"
    by (auto simp: h1_def)
  have ne: "cleaned_title \<noteq> []"
    using assms(1) short_not_empty by (simp add: cleaned_title_def)
  have dup: "StrCell cleaned_title
               \<in> set (butlast (map (\<lambda>x. StrCell (cleaner sw (StrCell (str x)))) (vals @ [v])))
             \<longleftrightarrow> (\<exists>x \<in> set vals. cleaner sw x = cleaner sw (StrCell title))"
    by (simp add: cleaner_str cleaned_title_def butlast_append image_iff) metis
  show ?thesis
  proof (cases sw fit_transform cleaned_title "length h" title column top_n h1
      rule: clean_and_recommend_cases)
    case (column e)
    then show ?thesis using col by simp
  next
    case (duplicate vals')
    then have "vals' = vals @ [v]" using col by simp
    then show ?thesis using duplicate(3,4) dup run by simp
  next
    case (matrix vals' e)
    then have "vals' = vals @ [v]" using col by simp
    then have "\<not> (\<exists>x \<in> set vals. cleaner sw x = cleaner sw (StrCell title))"
      using matrix(2) ne dup by simp
    then show ?thesis using matrix(3,4) run by auto
  next
    case (delegate vals' cosine_sim)
    then have "vals' = vals @ [v]" using col by simp
    then have "\<not> (\<exists>x \<in> set vals. cleaner sw x = cleaner sw (StrCell title))"
      using delegate(2) ne dup by simp
    moreover have "fst (initialize_frame_for_recommender sw fit_transform df title column
                      top_n True h) \<noteq> Inl ValueError_same_task"
      unfolding run delegate(3) using get_recommendations_error by fastforce
    ultimately show ?thesis by simp
  qed
qed

lemma jobs_titles:
  "getitem ([jobs] ! 0) ''Title'' = Inr [StrCell ''Fix server'', StrCell ''Plan party'']"
  by code_simp

lemma clean_fix_server:
  "cleaner stop_words (StrCell ''FIX the server!'') = ''fix server''"
  "cleaner stop_words (StrCell ''Fix server'') = ''fix server''"
  by code_simp+

theorem duplicate_guard_witness:
  "fst (initialize_frame_for_recommender stop_words unit_rows 0 ''FIX the server!'' ''Title'' 2
          True [jobs])
     = Inl ValueError_same_task"
proof -
  have t: "2 \<le> length (str_split (cleaner stop_words (StrCell ''FIX the server!'')))"
    unfolding clean_fix_server by code_simp
  have c: "length (columns ([jobs] ! 0)) = 4" by (simp add: jobs_def)
  have "\<exists>x \<in> set [StrCell ''Fix server'', StrCell ''Plan party''].
          cleaner stop_words x = cleaner stop_words (StrCell ''FIX the server!'')"
    by (simp add: clean_fix_server)
  then show ?thesis
    using duplicate_guard [OF t c jobs_titles, of unit_rows 2] by simp
qed

text \<open>
  C4 as stated fails: \<open>twins\<close> has the three columns of the data model, the query cleans to
  two tokens and to the cleaned text of the first row, and the call fails with the shape
  error of the row construction in line 141, before the guard of line 149 is reached.
\<close>

theorem duplicate_guard_counterexample:
  "2 \<le> length (str_split (cleaner stop_words (StrCell ''FIX the server!'')))
   \<and> getitem twins ''Title''
       = Inr [StrCell ''Fix server'', StrCell ''fix server'', StrCell ''Plan party'']
   \<and> cleaner stop_words (StrCell ''Fix server'')
       = cleaner stop_words (StrCell ''FIX the server!'')
   \<and> initialize_frame_for_recommender stop_words unit_rows 0 ''FIX the server!'' ''Title'' 2
         True [twins]
       = (Inl ValueError_shape, [twins])"
  by code_simp


subsection \<open>The caller's table\<close>

text \<open>
  C9 as stated fails: a query is inserted, the call succeeds, and the caller's table, at
  reference 0, is the table that was passed in, without the query row.
\<close>

theorem caller_table_counterexample:
  "fst (initialize_frame_for_recommender stop_words unit_rows 0 ''Deploy 2'' ''Title'' 2 True
          [tasks])
     = Inr \<lparr>columns = [''ID'', ''Title'', ''Deadline''],
            index = [IntCell 0, IntCell 1],
            rows = [[IntCell 1, StrCell ''Audit'', StrCell ''2024-01-01''],
                    [IntCell 2, StrCell ''Backup'', StrCell ''2024-01-02'']]\<rparr>
   \<and> snd (initialize_frame_for_recommender stop_words unit_rows 0 ''Deploy 2'' ''Title'' 2 True
            [tasks]) ! 0
       = tasks
   \<and> query_row ''Deploy 2'' \<notin> set (rows tasks)"
  by code_simp

text \<open>
  C9, as the code has it. With \<open>is_new_query\<close> true the caller's table is the same after
  the call as before it, whether the call succeeds or fails: \<^verbatim>\<open>df.append\<close> returns a new
  table, and the synthetic query row (\<^verbatim>\<open>ID=999\<close>, \<^verbatim>\<open>Deadline='0'\<close>) is the last row of that
  new table only.
\<close>

theorem caller_table_unchanged:
  assumes "df < length h"
  shows "snd (initialize_frame_for_recommender sw fit_transform df title column top_n True h) ! df
           = h ! df
       \<and> (\<forall>cleaned_title df1 h1.
             insert_query_row sw df title h = Inr (cleaned_title, df1, h1) \<longrightarrow>
               df1 \<noteq> df \<and> h1 ! df = h ! df
               \<and> rows (h1 ! df1) = rows (h ! df) @ [query_row title])"
proof (cases "length (str_split (cleaner sw (StrCell title))) < 2")
  case True
  then show ?thesis by (simp add: initialize_too_short insert_too_short)
next
  case False
  then have long: "2 \<le> length (str_split (cleaner sw (StrCell title)))" by simp
  show ?thesis
  proof (cases "length (columns (h ! df)) = 4")
    case False
    then show ?thesis by (simp add: initialize_shape [OF long] insert_shape [OF long])
  next
    case True
    have "length h \<noteq> df" using assms by simp
    then show ?thesis
      using assms
      by (simp add: initialize_inserted [OF long True] insert_ok [OF long True]
          clean_and_recommend_frame nth_append df_append_def)
  qed
qed

lemma clean_deploy: "cleaner stop_words (StrCell ''Deploy 2'') = ''deploy 2''"
  by code_simp

theorem caller_table_unchanged_witness:
  "snd (initialize_frame_for_recommender stop_words unit_rows 0 ''Deploy 2'' ''Title'' 2 True
          [tasks]) ! 0
     = [tasks] ! 0
   \<and> rows ([tasks, df_append tasks \<lparr>columns = columns tasks, index = [IntCell 0],
                                     rows = [query_row ''Deploy 2'']\<rparr>] ! 1)
       = rows ([tasks] ! 0) @ [query_row ''Deploy 2'']"
proof -
  have t: "2 \<le> length (str_split (cleaner stop_words (StrCell ''Deploy 2'')))"
    unfolding clean_deploy by code_simp
  have c: "length (columns ([tasks] ! 0)) = 4" by (simp add: tasks_def)
  have i: "insert_query_row stop_words 0 ''Deploy 2'' [tasks]
             = Inr (cleaner stop_words (StrCell ''Deploy 2''), 1,
                    [tasks, df_append tasks \<lparr>columns = columns tasks, index = [IntCell 0],
                                             rows = [query_row ''Deploy 2'']\<rparr>])"
    using insert_ok [OF t c] by simp
  have "(0::nat) < length [tasks]" by simp
  from caller_table_unchanged [OF this, of stop_words unit_rows "''Deploy 2''" "''Title''" 2]
  show ?thesis using i by blast
qed

subsection \<open>The shape of the query row\<close>

lemma getitem_working:
  assumes "position c (columns df) = Some k"
  shows "getitem (df_append df \<lparr>columns = cols, index = i, rows = [row]\<rparr>) c
           = Inr (map (\<lambda>row. row ! k) (rows df) @ [row ! k])"
  using assms by (simp add: getitem_def df_append_def)

text \<open>
  C10. With \<open>is_new_query\<close> true and a title that is long enough, the query row is four
  values laid against the column list of the table. For a table that has not exactly four
  columns the construction fails (pandas refuses the shape) and the call ends there. For a
  table of four columns the row is appended to the working table with the title in second
  place; a designated \<open>column\<close> at any other place receives 999, \<^verbatim>\<open>'0'\<close> or
  \<^verbatim>\<open>'You want to?'\<close> instead of the title, and a \<open>column\<close> that the table does not have
  receives nothing.
\<close>

theorem query_row_positional:
  assumes "2 \<le> length (str_split (cleaner sw (StrCell title)))"
  shows "(length (columns (h ! df)) \<noteq> 4 \<longrightarrow>
            insert_query_row sw df title h = Inl ValueError_shape
            \<and> initialize_frame_for_recommender sw fit_transform df title column top_n True h
                = (Inl ValueError_shape, h))
       \<and> (length (columns (h ! df)) = 4 \<longrightarrow>
            (\<exists>working.
               insert_query_row sw df title h
                 = Inr (cleaner sw (StrCell title), length h, h @ [working])
               \<and> columns working = columns (h ! df)
               \<and> rows working = rows (h ! df) @ [query_row title]
               \<and> last (rows working) ! 1 = StrCell title
               \<and> (\<forall>k. position column (columns (h ! df)) = Some k \<and> k \<noteq> 1 \<longrightarrow>
                     (\<exists>vals. getitem working column = Inr vals
                        \<and> last vals \<in> {IntCell 999, StrCell ''0'', StrCell ''You want to?''}))
               \<and> (position column (columns (h ! df)) = None \<longrightarrow>
                     getitem working column = Inl KeyError)))"
proof (intro conjI impI)
  assume "length (columns (h ! df)) \<noteq> 4"
  then show "insert_query_row sw df title h = Inl ValueError_shape"
    and "initialize_frame_for_recommender sw fit_transform df title column top_n True h
           = (Inl ValueError_shape, h)"
    using assms by (simp_all add: insert_shape initialize_shape)
next
  assume four: "length (columns (h ! df)) = 4"
  define working where
    "working = df_append (h ! df)
                 \<lparr>columns = columns (h ! df), index = [IntCell 0], rows = [query_row title]\<rparr>"
  have a1: "insert_query_row sw df title h
              = Inr (cleaner sw (StrCell title), length h, h @ [working])"
    using insert_ok [OF assms four] by (simp add: working_def)
  have a2: "columns working = columns (h ! df)"
    and a3: "rows working = rows (h ! df) @ [query_row title]"
    and a4: "last (rows working) ! 1 = StrCell title"
    by (simp_all add: working_def df_append_def query_row_def)
  have a5: "\<forall>k. position column (columns (h ! df)) = Some k \<and> k \<noteq> 1 \<longrightarrow>
              (\<exists>vals. getitem working column = Inr vals
                 \<and> last vals \<in> {IntCell 999, StrCell ''0'', StrCell ''You want to?''})"
  proof (intro allI impI, elim conjE)
    fix k assume p: "position column (columns (h ! df)) = Some k" and k: "k \<noteq> 1"
    have "k < 4" using p position_nth [of column "columns (h ! df)" k] four by simp
    then have "k = 0 \<or> k = 2 \<or> k = 3" using k by arith
    then have q: "query_row title ! k \<in> {IntCell 999, StrCell ''0'', StrCell ''You want to?''}"
      by (auto simp: query_row_def)
    have "getitem working column
            = Inr (map (\<lambda>row. row ! k) (rows (h ! df)) @ [query_row title ! k])"
      unfolding working_def using p by (rule getitem_working)
    moreover have "last (map (\<lambda>row. row ! k) (rows (h ! df)) @ [query_row title ! k])
                     = query_row title ! k"
      by simp
    ultimately show "\<exists>vals. getitem working column = Inr vals
        \<and> last vals \<in> {IntCell 999, StrCell ''0'', StrCell ''You want to?''}"
      using q by (intro exI [of _ "map (\<lambda>row. row ! k) (rows (h ! df)) @ [query_row title ! k]"])
        (simp only: simp_thms)
  qed
  have a6: "position column (columns (h ! df)) = None \<longrightarrow>
              getitem working column = Inl KeyError"
    by (simp add: working_def getitem_def df_append_def)
  show "\<exists>working.
      insert_query_row sw df title h = Inr (cleaner sw (StrCell title), length h, h @ [working])
      \<and> columns working = columns (h ! df)
      \<and> rows working = rows (h ! df) @ [query_row title]
      \<and> last (rows working) ! 1 = StrCell title
      \<and> (\<forall>k. position column (columns (h ! df)) = Some k \<and> k \<noteq> 1 \<longrightarrow>
            (\<exists>vals. getitem working column = Inr vals
               \<and> last vals \<in> {IntCell 999, StrCell ''0'', StrCell ''You want to?''}))
      \<and> (position column (columns (h ! df)) = None \<longrightarrow> getitem working column = Inl KeyError)"
    by (rule exI [of _ working]) (intro conjI a1 a2 a3 a4 a5 a6)
qed

theorem query_row_positional_witness:
  "initialize_frame_for_recommender stop_words unit_rows 0 ''Deploy 2'' ''Title'' 2 True [twins]
     = (Inl ValueError_shape, [twins])"
proof -
  have t: "2 \<le> length (str_split (cleaner stop_words (StrCell ''Deploy 2'')))"
    unfolding clean_deploy by code_simp
  have "length (columns ([twins] ! 0)) \<noteq> 4" by (simp add: twins_def)
  then show ?thesis
    using query_row_positional [OF t, of "[twins]" 0 unit_rows "''Title''" 2] by blast
qed

end
